theory Spec2Isabelle
  imports Complex_Main
begin

section \<open>The staged load shape of \<^verbatim>\<open>locust_autoscaling_benchmark_sm.py\<close>\<close>

text \<open>
  A stage is one dictionary of the class attribute \<^verbatim>\<open>StagesShape.stages\<close>:
  \<^verbatim>\<open>{"duration": 120, "users": 2, "spawn_rate": 2}\<close>.
  The run time that \<^verbatim>\<open>get_run_time()\<close> returns is a Python float and the
  boundaries are Python numbers; Python compares the two by their exact values, so both
  are modelled by the real number they denote.
\<close>

record stage =
  duration :: real
  users :: int
  spawn_rate :: real

text \<open>
  \<^verbatim>\<open>
  def tick(self):
      run_time = self.get_run_time()
      for stage in self.stages:
          if run_time < stage["duration"]:
              tick_data = (stage["users"], stage["spawn_rate"])
              return tick_data
      return None
  \<close>
  The loop over \<^verbatim>\<open>self.stages\<close> is a recursion over the list; \<^verbatim>\<open>None\<close>
  is \<open>None\<close> and the returned tuple is \<open>Some (users, spawn_rate)\<close>.
\<close>

fun tick :: "stage list \<Rightarrow> real \<Rightarrow> (int \<times> real) option" where
  "tick [] run_time = None"
| "tick (stage # stages) run_time =
     (if run_time < duration stage then Some (users stage, spawn_rate stage)
      else tick stages run_time)"

text \<open>
  The position in the table of the stage at which the loop of \<open>tick\<close> returns: the same
  scan, counting the iterations instead of reading the stage.
\<close>

fun stage_index :: "stage list \<Rightarrow> real \<Rightarrow> nat option" where
  "stage_index [] run_time = None"
| "stage_index (stage # stages) run_time =
     (if run_time < duration stage then Some 0
      else map_option Suc (stage_index stages run_time))"

text \<open>The table the class declares.\<close>

definition StagesShape_stages :: "stage list" where
  "StagesShape_stages =
    [\<lparr>duration = 120, users = 2, spawn_rate = 2\<rparr>,
     \<lparr>duration = 240, users = 4, spawn_rate = 2\<rparr>,
     \<lparr>duration = 360, users = 6, spawn_rate = 2\<rparr>,
     \<lparr>duration = 480, users = 8, spawn_rate = 2\<rparr>,
     \<lparr>duration = 600, users = 10, spawn_rate = 2\<rparr>,
     \<lparr>duration = 720, users = 12, spawn_rate = 2\<rparr>,
     \<lparr>duration = 840, users = 14, spawn_rate = 2\<rparr>,
     \<lparr>duration = 960, users = 16, spawn_rate = 2\<rparr>,
     \<lparr>duration = 1080, users = 18, spawn_rate = 2\<rparr>,
     \<lparr>duration = 1200, users = 20, spawn_rate = 2\<rparr>]"

text \<open>
  The table of the worked example: the first three stages of the declared one, with
  boundaries 120, 240, 360 and targets 2, 4, 6.
\<close>

definition example_stages :: "stage list" where
  "example_stages = take 3 StagesShape_stages"

section \<open>The endpoint client\<close>

text \<open>
  Python exceptions that the client code can meet. \<^verbatim>\<open>KeyError\<close>,
  \<^verbatim>\<open>ValueError\<close>, \<^verbatim>\<open>FileNotFoundError\<close> and botocore's \<^verbatim>\<open>ClientError\<close>
  derive from \<^verbatim>\<open>Exception\<close>; \<^verbatim>\<open>KeyboardInterrupt\<close> and gevent's
  \<^verbatim>\<open>GreenletExit\<close> (raised in a user's greenlet when the runner stops it) derive from
  \<^verbatim>\<open>BaseException\<close> only. \<open>is_Exception e\<close> is \<^verbatim>\<open>isinstance(e, Exception)\<close>, the
  test of the clause \<^verbatim>\<open>except Exception as e\<close>.
\<close>

datatype py_exception =
    KeyError string
  | ValueError
  | FileNotFoundError string
  | ClientError string
  | KeyboardInterrupt
  | GreenletExit

fun is_Exception :: "py_exception \<Rightarrow> bool" where
  "is_Exception (KeyError k) = True"
| "is_Exception ValueError = True"
| "is_Exception (FileNotFoundError p) = True"
| "is_Exception (ClientError m) = True"
| "is_Exception KeyboardInterrupt = False"
| "is_Exception GreenletExit = False"

text \<open>
  The module constant \<^verbatim>\<open>content_type = "application/octet-stream"\<close>.
\<close>

definition module_content_type :: string where
  "module_content_type = ''application/octet-stream''"

text \<open>
  The keyword arguments of \<^verbatim>\<open>invoke_endpoint\<close>. A boto3 client is the outcome of
  its \<^verbatim>\<open>invoke_endpoint\<close> on a request (a raised exception or a response); a boto3
  session is the outcome of its \<^verbatim>\<open>client(service)\<close>.
\<close>

record invoke_request =
  EndpointName :: string
  Body :: string
  ContentType :: string
  TargetModel :: string

type_synonym boto_client = "invoke_request \<Rightarrow> py_exception + string"
type_synonym boto_session = "string \<Rightarrow> py_exception + boto_client"

record SageMakerClient =
  session :: boto_session
  payload :: string
  client :: boto_client
  content_type :: string

text \<open>
  \<^verbatim>\<open>
  def __init__(self):
      super().__init__()
      self.session = boto3.session.Session()
      self.payload = globals()["payload"]
      self.client=self.session.client("sagemaker-runtime")
      self.content_type = content_type
  \<close>
  \<open>Session\<close> is the outcome of \<^verbatim>\<open>boto3.session.Session()\<close>, \<open>globals\<close> the module's
  global namespace; a missing key of a dictionary raises \<^verbatim>\<open>KeyError\<close>.
\<close>

definition SageMakerClient_init ::
  "py_exception + boto_session \<Rightarrow> (string \<rightharpoonup> string) \<Rightarrow> py_exception + SageMakerClient" where
  "SageMakerClient_init Session globals =
     (case Session of
        Inl e \<Rightarrow> Inl e
      | Inr s \<Rightarrow>
          (case globals ''payload'' of
             None \<Rightarrow> Inl (KeyError ''payload'')
           | Some p \<Rightarrow>
               (case s ''sagemaker-runtime'' of
                  Inl e \<Rightarrow> Inl e
                | Inr c \<Rightarrow>
                    Inr \<lparr>session = s, payload = p, client = c,
                         content_type = module_content_type\<rparr>)))"

text \<open>
  \<^verbatim>\<open>
  def __init__(self, *args, **kwargs):
      super().__init__(*args, **kwargs)
      payload_path = Path(self.environment.parsed_options.payload)
      globals()["payload"] = payload_path.open("r").read()
      self.client = SageMakerClient()
  \<close>
  \<open>read_file\<close> is the file system (the content of a path, or the exception that opening
  it raises). The result is the global namespace as the call leaves it and the client
  it has built, or the exception it has raised.
\<close>

definition SageMakerUser_init ::
  "py_exception + boto_session \<Rightarrow> (string \<Rightarrow> py_exception + string) \<Rightarrow> string \<Rightarrow>
   (string \<rightharpoonup> string) \<Rightarrow> (string \<rightharpoonup> string) \<times> (py_exception + SageMakerClient)" where
  "SageMakerUser_init Session read_file payload_path globals =
     (case read_file payload_path of
        Inl e \<Rightarrow> (globals, Inl e)
      | Inr content \<Rightarrow>
          (let globals' = globals(''payload'' \<mapsto> content)
           in (globals', SageMakerClient_init Session globals')))"

text \<open>
  \<^verbatim>\<open>str\<close> of an integer, as \<^verbatim>\<open>"{1}".format\<close> writes it.
\<close>

definition digit_char :: "nat \<Rightarrow> char" where
  "digit_char d = ''0123456789'' ! d"

function str_nat :: "nat \<Rightarrow> string" where
  "str_nat n = (if n < 10 then [digit_char n] else str_nat (n div 10) @ [digit_char (n mod 10)])"
  by pat_completeness auto
termination
  by (relation "measure id") auto

definition str_int :: "int \<Rightarrow> string" where
  "str_int i = (if i < 0 then CHR ''-'' # str_nat (nat (- i)) else str_nat (nat i))"

text \<open>
  \<^verbatim>\<open>random.randint(a, b)\<close> raises \<^verbatim>\<open>ValueError\<close> on an empty range and returns
  a value the generating function \<open>rng\<close> picks otherwise.
\<close>

definition randint :: "(int \<Rightarrow> int \<Rightarrow> int) \<Rightarrow> int \<Rightarrow> int \<Rightarrow> py_exception + int" where
  "randint rng a b = (if b < a then Inl ValueError else Inr (rng a b))"

text \<open>
  The dictionary \<^verbatim>\<open>request_meta\<close>; its key \<^verbatim>\<open>"context"\<close> is the field
  \<open>context_dict\<close>, and the key \<^verbatim>\<open>"response_time"\<close>, absent until it is assigned, is an
  option. \<open>send_env\<close> holds what \<^verbatim>\<open>send\<close> reads from its surroundings: the value of
  \<^verbatim>\<open>time.time()\<close>, the two values of \<^verbatim>\<open>time.perf_counter()\<close> and the random
  generator.
\<close>

record request_meta =
  request_type :: string
  name :: string
  start_time :: real
  num_models :: int
  response_length :: int
  response :: "string option"
  context_dict :: "(string \<times> string) list"
  exception :: "py_exception option"
  response_time :: "real option"

record send_env =
  time_time :: real
  perf_counter_start :: real
  perf_counter_end :: real
  random_draw :: "int \<Rightarrow> int \<Rightarrow> int"

text \<open>
  The body of the \<^verbatim>\<open>try\<close> block: the arguments are evaluated inside it, so the
  \<^verbatim>\<open>ValueError\<close> of \<^verbatim>\<open>random.randint(0, model_count-1)\<close> is raised there too.
  \<^verbatim>\<open>
  response = self.client.invoke_endpoint(
      EndpointName=endpoint_name,
      Body=self.payload,
      ContentType=self.content_type,
      TargetModel="{0}-v{1}.tar.gz".format(model_name, random.randint(0, model_count-1)),
  )
  \<close>
\<close>

definition try_invoke ::
  "SageMakerClient \<Rightarrow> send_env \<Rightarrow> string \<Rightarrow> string \<Rightarrow> int \<Rightarrow> py_exception + string" where
  "try_invoke self env endpoint_name model_name model_count =
     (case randint (random_draw env) 0 (model_count - 1) of
        Inl e \<Rightarrow> Inl e
      | Inr v \<Rightarrow>
          client self
            \<lparr>EndpointName = endpoint_name, Body = payload self,
             ContentType = content_type self,
             TargetModel = model_name @ ''-v'' @ str_int v @ ''.tar.gz''\<rparr>)"

text \<open>
  \<^verbatim>\<open>events.request.fire(**request_meta)\<close> adds one event to those fired so far.
\<close>

definition fire :: "request_meta list \<Rightarrow> request_meta \<Rightarrow> request_meta list" where
  "fire fired request_meta = fired @ [request_meta]"

text \<open>
  \<^verbatim>\<open>
  def send(self, endpoint_name, use_case, model_name, model_count):
      request_meta = {
          "request_type": "InvokeEndpoint", "name": model_name,
          "start_time": time.time(), "num_models": model_count,
          "response_length": 0, "response": None, "context": {}, "exception": None,
      }
      start_perf_counter = time.perf_counter()
      try:
          response = self.client.invoke_endpoint(...)
      except Exception as e:
          request_meta['exception'] = e
      request_meta["response_time"] = (time.perf_counter() - start_perf_counter) * 1000
      events.request.fire(**request_meta)
  \<close>
  The result is the list of fired events after the call, or the exception that leaves
  \<^verbatim>\<open>send\<close>: one that \<^verbatim>\<open>except Exception\<close> does not catch.
\<close>

definition send ::
  "SageMakerClient \<Rightarrow> send_env \<Rightarrow> string \<Rightarrow> string \<Rightarrow> string \<Rightarrow> int \<Rightarrow>
   request_meta list \<Rightarrow> py_exception + request_meta list" where
  "send self env endpoint_name use_case model_name model_count fired =
     (let request_meta =
            \<lparr>request_type = ''InvokeEndpoint'', name = model_name,
             start_time = time_time env, num_models = model_count,
             response_length = 0, response = None, context_dict = [],
             exception = None, response_time = None\<rparr>;
          start_perf_counter = perf_counter_start env;
          elapsed = (perf_counter_end env - start_perf_counter) * 1000
      in case try_invoke self env endpoint_name model_name model_count of
           Inr r \<Rightarrow>
             Inr (fire fired (request_meta\<lparr>response_time := Some elapsed\<rparr>))
         | Inl e \<Rightarrow>
             if is_Exception e
             then Inr (fire fired (request_meta\<lparr>exception := Some e, response_time := Some elapsed\<rparr>))
             else Inl e)"

text \<open>
  Clients and surroundings for concrete runs: a client whose endpoint invocation raises a
  given exception, one whose invocation answers with the name of the target model, and
  clock readings two seconds apart with a generator that picks the upper bound.
\<close>

definition raising_client :: "py_exception \<Rightarrow> SageMakerClient" where
  "raising_client e =
     \<lparr>session = (\<lambda>service. Inr (\<lambda>request. Inl e)), payload = ''{}'',
      client = (\<lambda>request. Inl e), content_type = module_content_type\<rparr>"

definition echo_client :: SageMakerClient where
  "echo_client =
     \<lparr>session = (\<lambda>service. Inr (\<lambda>request. Inr (TargetModel request))), payload = ''{}'',
      client = (\<lambda>request. Inr (TargetModel request)), content_type = module_content_type\<rparr>"

definition example_env :: send_env where
  "example_env =
     \<lparr>time_time = 100, perf_counter_start = 1, perf_counter_end = 3,
      random_draw = (\<lambda>a b. b)\<rparr>"

section \<open>Creating the load shape\<close>

text \<open>
  \<^verbatim>\<open>
  class StagesShape(LoadTestShape):
      stages = [ ... ]
      def tick(self): ...
  \<close>
  The class binds \<^verbatim>\<open>stages\<close> in its body and defines \<^verbatim>\<open>tick\<close> only: it has no
  \<^verbatim>\<open>__init__\<close>, no check of the table and no error class of its own, and the
  initialiser it inherits from Locust's \<^verbatim>\<open>LoadTestShape\<close> does not know the attribute.
  A shape is the object that holds the table (\<^verbatim>\<open>self.stages\<close>, the field
  \<open>self_stages\<close>), and creating a shape over a given list executes no statement that
  reads the list: the outcome has no raising branch.
\<close>

record StagesShape =
  self_stages :: "stage list"

definition StagesShape_new :: "stage list \<Rightarrow> py_exception + StagesShape" where
  "StagesShape_new table = Inr \<lparr>self_stages = table\<rparr>"

section \<open>The concurrency controller of the specification\<close>

text \<open>
  Modelled from the spec: the ConcurrencyController (\<^verbatim>\<open>reconcile\<close>) and the tick
  results it consumes are not in the source file, where the Locust runner adjusts the
  number of users. The spec's words: on \<^verbatim>\<open>Finished\<close>, stop all active workers; on
  \<^verbatim>\<open>Continue{target_concurrency, spawn_rate}\<close>, if
  \<^verbatim>\<open>current_active < target_concurrency\<close> start up to \<^verbatim>\<open>ceil(spawn_rate * dt)\<close> new
  workers this tick, never exceeding \<^verbatim>\<open>target_concurrency\<close>; if
  \<^verbatim>\<open>current_active > target_concurrency\<close> stop workers immediately down to
  \<^verbatim>\<open>target_concurrency\<close>; if equal, no action.
\<close>

datatype TickResult = Continue nat real | Finished

datatype Action = StopAll | StartWorkers nat | StopWorkers nat | NoAction

definition reconcile :: "nat \<Rightarrow> TickResult \<Rightarrow> real \<Rightarrow> Action" where
  "reconcile current_active target dt =
     (case target of
        Finished \<Rightarrow> StopAll
      | Continue target_concurrency rate \<Rightarrow>
          if current_active < target_concurrency
          then StartWorkers (min (nat \<lceil>rate * dt\<rceil>) (target_concurrency - current_active))
          else if target_concurrency < current_active
          then StopWorkers (current_active - target_concurrency)
          else NoAction)"

text \<open>
  Modelled from the spec: the active count after one reconcile tick, which the spec
  leaves to the driver and the worker pool. Of the workers the action starts, \<open>failed\<close>
  fail to start, and a failed start does not increment the count; stops succeed.
\<close>

definition after_tick :: "nat \<Rightarrow> TickResult \<Rightarrow> real \<Rightarrow> nat \<Rightarrow> nat" where
  "after_tick current_active target dt failed =
     (case reconcile current_active target dt of
        StopAll \<Rightarrow> 0
      | StartWorkers k \<Rightarrow> current_active + (k - failed)
      | StopWorkers k \<Rightarrow> current_active - k
      | NoAction \<Rightarrow> current_active)"

text \<open>
  Modelled from the spec: the active count after one tick per element of the list, each
  element the number of worker starts that fail in that tick.
\<close>

fun ramp :: "nat \<Rightarrow> TickResult \<Rightarrow> real \<Rightarrow> nat list \<Rightarrow> nat" where
  "ramp current_active target dt [] = current_active"
| "ramp current_active target dt (failed # rest) =
     ramp (after_tick current_active target dt failed) target dt rest"

section \<open>Resolution of the stage\<close>

lemma tick_stage_index:
  "tick stages t =
     map_option (\<lambda>i. (users (stages ! i), spawn_rate (stages ! i))) (stage_index stages t)"
  by (induction stages) (simp_all add: option.map_comp comp_def)

lemma stage_index_Some_iff:
  "stage_index stages t = Some i \<longleftrightarrow>
     i < length stages \<and> t < duration (stages ! i) \<and> (\<forall>j<i. duration (stages ! j) \<le> t)"
proof (induction stages arbitrary: i)
  case Nil
  show ?case by simp
next
  case (Cons s stages)
  show ?case
  proof (cases "t < duration s")
    case True
    then show ?thesis by (cases i) auto
  next
    case False
    show ?thesis
    proof (cases i)
      case 0
      with False show ?thesis by simp
    next
      case (Suc k)
      have "(\<forall>j<Suc k. duration ((s # stages) ! j) \<le> t) \<longleftrightarrow>
            (\<forall>j<k. duration (stages ! j) \<le> t)"
        using False by (auto simp: less_Suc_eq_0_disj)
      with False Suc Cons.IH [of k] show ?thesis by auto
    qed
  qed
qed

lemma stage_index_None_iff:
  "stage_index stages t = None \<longleftrightarrow> (\<forall>s\<in>set stages. duration s \<le> t)"
  by (induction stages) auto

lemma tick_None_iff:
  "tick stages t = None \<longleftrightarrow> (\<forall>s\<in>set stages. duration s \<le> t)"
  by (induction stages) auto

section \<open>The worked example (C1)\<close>

text \<open>
  On the example table the loop returns stage 2 at 359 (359 < 360 is the first test that
  succeeds) and \<open>None\<close> at 360 (360 < 360 fails, and no stage is left): the code does not
  return stage 1 at 359 nor stage 2 at 360.
\<close>

theorem example_resolution_counterexample:
  "stage_index example_stages 359 = Some 2 \<and> tick example_stages 359 = Some (6, 2) \<and>
   tick example_stages 359 \<noteq> Some (4, 2) \<and>
   stage_index example_stages 360 = None \<and> tick example_stages 360 = None \<and>
   tick example_stages 360 \<noteq> Some (6, 2)"
  by (simp add: example_stages_def StagesShape_stages_def)

text \<open>
  C1, as the code resolves the example: with boundaries 120, 240, 360 and targets 2, 4, 6,
  the elapsed times 0 and 119 resolve to stage 0 (target 2), 120 to stage 1 (target 4),
  359 to stage 2 (target 6), and 360 and 361 to the termination sentinel.
\<close>

theorem example_resolution:
  "tick example_stages 0 = Some (2, 2) \<and> stage_index example_stages 0 = Some 0 \<and>
   tick example_stages 119 = Some (2, 2) \<and> stage_index example_stages 119 = Some 0 \<and>
   tick example_stages 120 = Some (4, 2) \<and> stage_index example_stages 120 = Some 1 \<and>
   tick example_stages 359 = Some (6, 2) \<and> stage_index example_stages 359 = Some 2 \<and>
   tick example_stages 360 = None \<and> tick example_stages 361 = None"
  by (simp add: example_stages_def StagesShape_stages_def)

section \<open>The window of a stage (C2)\<close>

text \<open>
  The elapsed time 120 lies in the window up to and including the boundary of stage 0,
  yet the loop returns stage 1 there: the comparison \<^verbatim>\<open>run_time < stage["duration"]\<close>
  is strict.
\<close>

theorem stage_window_counterexample:
  "0 < length example_stages \<and> 120 \<le> duration (example_stages ! 0) \<and>
   stage_index example_stages 120 = Some 1 \<and> stage_index example_stages 120 \<noteq> Some 0 \<and>
   tick example_stages 120 = Some (4, 2) \<and>
   tick example_stages 120 \<noteq> Some (users (example_stages ! 0), spawn_rate (example_stages ! 0))"
  by (simp add: example_stages_def StagesShape_stages_def)

text \<open>
  C2, with the window closed below and open above: in a table whose boundaries do not
  decrease, for every stage index i and every elapsed time t with
  boundary (i - 1) \<le> t < boundary i (for i = 0, every t below the boundary of stage 0),
  the loop returns stage i. At an elapsed time equal to the boundary of a stage the
  window of that stage is over.
\<close>

theorem stage_window:
  assumes "sorted (map duration stages)" and "i < length stages"
    and "i = 0 \<or> duration (stages ! (i - 1)) \<le> t" and "t < duration (stages ! i)"
  shows "stage_index stages t = Some i \<and>
         tick stages t = Some (users (stages ! i), spawn_rate (stages ! i))"
proof -
  have before: "duration (stages ! j) \<le> t" if "j < i" for j
  proof -
    from that have i: "0 < i" and j: "j \<le> i - 1" by simp_all
    from i assms(3) have prev: "duration (stages ! (i - 1)) \<le> t" by simp
    from assms(1) j i assms(2) have "map duration stages ! j \<le> map duration stages ! (i - 1)"
      by (intro sorted_nth_mono) simp_all
    with that assms(2) i prev show ?thesis by simp
  qed
  then have idx: "stage_index stages t = Some i"
    using assms(2,4) by (simp add: stage_index_Some_iff)
  then show ?thesis by (simp add: tick_stage_index)
qed

theorem stage_window_witness:
  "sorted (map duration example_stages) \<and> 1 < length example_stages \<and>
   duration (example_stages ! (1 - 1)) \<le> 120 \<and> 120 < duration (example_stages ! 1) \<and>
   stage_index example_stages 120 = Some 1 \<and>
   tick example_stages 120 = Some (users (example_stages ! 1), spawn_rate (example_stages ! 1))"
proof -
  have h1: "sorted (map duration example_stages)"
    and h2: "1 < length example_stages"
    and h3: "(1::nat) = 0 \<or> duration (example_stages ! (1 - 1)) \<le> 120"
    and h4: "120 < duration (example_stages ! 1)"
    by (simp_all add: example_stages_def StagesShape_stages_def)
  from stage_window [OF h1 h2 h3 h4] h1 h2 h3 h4 show ?thesis by simp
qed

section \<open>First stage with a greater boundary (C3)\<close>

text \<open>
  C3: when some stage has a boundary strictly greater than the elapsed time t, the loop
  returns the first stage in table order whose boundary is strictly greater than t: the
  stage at an index i with t < boundary i and no earlier index j with t < boundary j.
\<close>

theorem tick_first_greater:
  assumes "\<exists>s\<in>set stages. t < duration s"
  shows "\<exists>i<length stages. t < duration (stages ! i) \<and>
           (\<forall>j<i. \<not> t < duration (stages ! j)) \<and>
           stage_index stages t = Some i \<and>
           tick stages t = Some (users (stages ! i), spawn_rate (stages ! i))"
proof -
  from assms obtain s where "s \<in> set stages" and "\<not> duration s \<le> t"
    by (auto simp: not_le)
  then have "stage_index stages t \<noteq> None"
    unfolding stage_index_None_iff by blast
  then obtain i where idx: "stage_index stages t = Some i" by auto
  then have "i < length stages" "t < duration (stages ! i)"
    "\<forall>j<i. \<not> t < duration (stages ! j)"
    by (auto simp: stage_index_Some_iff)
  with idx show ?thesis by (auto simp: tick_stage_index)
qed

theorem tick_first_greater_witness:
  "(\<exists>s\<in>set StagesShape_stages. 130 < duration s) \<and>
   stage_index StagesShape_stages 130 = Some 1 \<and>
   tick StagesShape_stages 130 = Some (4, 2)"
proof -
  have h: "\<exists>s\<in>set StagesShape_stages. 130 < duration s"
    by (simp add: StagesShape_stages_def)
  from tick_first_greater [OF h] obtain i where
    "stage_index StagesShape_stages 130 = Some i"
    "tick StagesShape_stages 130 = Some (users (StagesShape_stages ! i), spawn_rate (StagesShape_stages ! i))"
    by blast
  moreover have "stage_index StagesShape_stages 130 = Some 1"
    by (simp add: StagesShape_stages_def)
  ultimately show ?thesis using h by (simp add: StagesShape_stages_def)
qed

section \<open>Sticky termination (C4)\<close>

text \<open>
  C4: if the loop returns the termination sentinel \<open>None\<close> at elapsed time t, it
  returns it at every elapsed time t' \<ge> t. This holds for every table, ordered or not.
\<close>

theorem finished_sticky:
  assumes "t \<le> t'" and "tick stages t = None"
  shows "tick stages t' = None"
  using assms by (fastforce simp: tick_None_iff)

theorem finished_sticky_witness:
  "(1200::real) \<le> 1300 \<and> tick StagesShape_stages 1200 = None \<and> tick StagesShape_stages 1300 = None"
proof -
  have h1: "(1200::real) \<le> 1300" by simp
  have h2: "tick StagesShape_stages 1200 = None" by (simp add: StagesShape_stages_def)
  from finished_sticky [OF h1 h2] h1 h2 show ?thesis by simp
qed

section \<open>Monotonic resolution (C5)\<close>

text \<open>
  C5: for elapsed times t1 < t2 at which the loop returns a stage both times, the index
  of the stage returned at t2 is at least the index of the stage returned at t1.
\<close>

theorem resolution_monotonic:
  assumes "t1 < t2" and "tick stages t1 = Some r1" and "tick stages t2 = Some r2"
  shows "\<exists>i1 i2. stage_index stages t1 = Some i1 \<and> stage_index stages t2 = Some i2 \<and>
           r1 = (users (stages ! i1), spawn_rate (stages ! i1)) \<and>
           r2 = (users (stages ! i2), spawn_rate (stages ! i2)) \<and> i1 \<le> i2"
proof -
  from assms(2) obtain i1 where i1: "stage_index stages t1 = Some i1"
    and r1: "r1 = (users (stages ! i1), spawn_rate (stages ! i1))"
    by (auto simp: tick_stage_index)
  from assms(3) obtain i2 where i2: "stage_index stages t2 = Some i2"
    and r2: "r2 = (users (stages ! i2), spawn_rate (stages ! i2))"
    by (auto simp: tick_stage_index)
  have "i1 \<le> i2"
  proof (rule ccontr)
    assume "\<not> i1 \<le> i2"
    then have "i2 < i1" by simp
    with i1 have "duration (stages ! i2) \<le> t1" by (simp add: stage_index_Some_iff)
    moreover from i2 have "t2 < duration (stages ! i2)" by (simp add: stage_index_Some_iff)
    ultimately show False using assms(1) by simp
  qed
  with i1 i2 r1 r2 show ?thesis by blast
qed

theorem resolution_monotonic_witness:
  "(100::real) < 500 \<and> tick StagesShape_stages 100 = Some (2, 2) \<and>
   tick StagesShape_stages 500 = Some (10, 2) \<and>
   stage_index StagesShape_stages 100 = Some 0 \<and> stage_index StagesShape_stages 500 = Some 4 \<and>
   (0::nat) \<le> 4"
proof -
  have h1: "(100::real) < 500" by simp
  have h2: "tick StagesShape_stages 100 = Some (2, 2)" by (simp add: StagesShape_stages_def)
  have h3: "tick StagesShape_stages 500 = Some (10, 2)" by (simp add: StagesShape_stages_def)
  from resolution_monotonic [OF h1 h2 h3] obtain i1 i2 where
    "stage_index StagesShape_stages 100 = Some i1" "stage_index StagesShape_stages 500 = Some i2"
    "i1 \<le> i2" by blast
  moreover have "stage_index StagesShape_stages 100 = Some 0" "stage_index StagesShape_stages 500 = Some 4"
    by (simp_all add: StagesShape_stages_def)
  ultimately show ?thesis using h1 h2 h3 by simp
qed

section \<open>Exhausted table (C6)\<close>

text \<open>
  C6: when the elapsed time t is greater than or equal to the boundary of every stage,
  the loop returns the termination sentinel \<open>None\<close>.
\<close>

theorem exhausted_finished:
  assumes "\<forall>s\<in>set stages. duration s \<le> t"
  shows "tick stages t = None \<and> stage_index stages t = None"
  using assms by (simp add: tick_None_iff stage_index_None_iff)

theorem exhausted_finished_witness:
  "list_all (\<lambda>s. duration s \<le> 1200) StagesShape_stages \<and>
   tick StagesShape_stages 1200 = None \<and> stage_index StagesShape_stages 1200 = None"
proof -
  have h: "\<forall>s\<in>set StagesShape_stages. duration s \<le> 1200"
    by (simp add: StagesShape_stages_def)
  from exhausted_finished [OF h] h show ?thesis by (simp add: list_all_iff)
qed

section \<open>The empty table (C7)\<close>

text \<open>
  Creating the shape over the empty list does not fail: the outcome is not an exception
  but the shape that holds the empty table, and at elapsed time 0 \<^verbatim>\<open>tick\<close> on it
  returns \<open>None\<close>, since the loop body never runs. The empty table is accepted and is
  finished at once.
\<close>

theorem empty_table_counterexample:
  "\<not> isl (StagesShape_new []) \<and>
   StagesShape_new [] = Inr \<lparr>self_stages = []\<rparr> \<and>
   tick (self_stages (projr (StagesShape_new []))) 0 = None"
  by (simp add: StagesShape_new_def)

text \<open>
  C7, as the code behaves: creating the shape over an empty stage list raises no error
  and yields a shape whose table is the empty list; at every elapsed time
  \<^verbatim>\<open>tick\<close> returns the termination sentinel for it, and no stage is ever resolved.
\<close>

theorem empty_table_accepted:
  "\<exists>shape. StagesShape_new [] = Inr shape \<and> self_stages shape = [] \<and>
           tick (self_stages shape) t = None \<and> stage_index (self_stages shape) t = None"
  by (simp add: StagesShape_new_def)

section \<open>The request event of \<open>send\<close> (C9)\<close>

lemma try_invoke_invalid_count:
  "model_count \<le> 0 \<Longrightarrow> try_invoke self env endpoint_name model_name model_count = Inl ValueError"
  by (simp add: try_invoke_def randint_def)

lemma try_invoke_valid_count:
  "0 < model_count \<Longrightarrow>
   try_invoke self env endpoint_name model_name model_count =
     client self
       \<lparr>EndpointName = endpoint_name, Body = payload self, ContentType = content_type self,
        TargetModel = model_name @ ''-v'' @ str_int (random_draw env 0 (model_count - 1)) @ ''.tar.gz''\<rparr>"
  by (simp add: try_invoke_def randint_def)

lemma str_int_4: "str_int 4 = ''4''"
  by (simp add: str_int_def digit_char_def)

lemma echo_target_model:
  "try_invoke echo_client example_env ''mme-cv-benchmark-pt'' ''vgg16'' 5 = Inr ''vgg16-v4.tar.gz''"
  by (simp add: try_invoke_def randint_def example_env_def echo_client_def str_int_4)

lemma send_success:
  "send echo_client example_env ''mme-cv-benchmark-pt'' ''cv'' ''vgg16'' 5 [] =
     Inr [\<lparr>request_type = ''InvokeEndpoint'', name = ''vgg16'', start_time = 100,
           num_models = 5, response_length = 0, response = None, context_dict = [],
           exception = None, response_time = Some 2000\<rparr>]"
  by (simp add: send_def try_invoke_def randint_def fire_def example_env_def echo_client_def)

lemma send_invalid_model_count:
  "send echo_client example_env ''mme-cv-benchmark-pt'' ''cv'' ''vgg16'' 0 [] =
     Inr [\<lparr>request_type = ''InvokeEndpoint'', name = ''vgg16'', start_time = 100,
           num_models = 0, response_length = 0, response = None, context_dict = [],
           exception = Some ValueError, response_time = Some 2000\<rparr>]"
  by (simp add: send_def try_invoke_def randint_def fire_def example_env_def)

text \<open>
  When the endpoint invocation raises \<^verbatim>\<open>KeyboardInterrupt\<close>, which is not an
  instance of \<^verbatim>\<open>Exception\<close>, the clause \<^verbatim>\<open>except Exception\<close> does not catch it:
  the exception leaves \<^verbatim>\<open>send\<close> and no request event is fired.
\<close>

theorem send_propagates_counterexample:
  "send (raising_client KeyboardInterrupt) example_env ''mme-cv-benchmark-pt'' ''cv'' ''vgg16'' 5 []
     = Inl KeyboardInterrupt"
  by (simp add: send_def try_invoke_def randint_def raising_client_def)

text \<open>
  C9, for what \<^verbatim>\<open>except Exception\<close> catches: for every endpoint name, use case,
  model name and model count, when the \<^verbatim>\<open>try\<close> block succeeds or raises an instance of
  \<^verbatim>\<open>Exception\<close> (the \<^verbatim>\<open>ValueError\<close> of an invalid model count is one),
  \<^verbatim>\<open>send\<close> returns without an exception and fires exactly one request event, whose
  exception field is the caught exception on failure and \<^verbatim>\<open>None\<close> on success, and whose
  response time is populated.
\<close>

theorem send_fires_one_event:
  assumes "case try_invoke self env endpoint_name model_name model_count of
             Inl e \<Rightarrow> is_Exception e | Inr r \<Rightarrow> True"
  shows "\<exists>m. send self env endpoint_name use_case model_name model_count fired = Inr (fired @ [m]) \<and>
           exception m =
             (case try_invoke self env endpoint_name model_name model_count of
                Inl e \<Rightarrow> Some e | Inr r \<Rightarrow> None) \<and>
           response_time m = Some ((perf_counter_end env - perf_counter_start env) * 1000) \<and>
           request_type m = ''InvokeEndpoint'' \<and> name m = model_name \<and>
           start_time m = time_time env \<and> num_models m = model_count"
proof (cases "try_invoke self env endpoint_name model_name model_count")
  case (Inl e)
  with assms have "is_Exception e" by simp
  with Inl show ?thesis by (simp add: send_def fire_def)
next
  case (Inr r)
  then show ?thesis by (simp add: send_def fire_def)
qed

theorem send_fires_one_event_witness:
  "(case try_invoke (raising_client (ClientError ''ModelError'')) example_env
           ''mme-cv-benchmark-pt'' ''vgg16'' 5 of
      Inl e \<Rightarrow> is_Exception e | Inr r \<Rightarrow> True) \<and>
   send (raising_client (ClientError ''ModelError'')) example_env
        ''mme-cv-benchmark-pt'' ''cv'' ''vgg16'' 5 [] =
     Inr [\<lparr>request_type = ''InvokeEndpoint'', name = ''vgg16'', start_time = 100,
           num_models = 5, response_length = 0, response = None, context_dict = [],
           exception = Some (ClientError ''ModelError''), response_time = Some 2000\<rparr>]"
proof -
  let ?c = "raising_client (ClientError ''ModelError'')"
  have t: "try_invoke ?c env ''mme-cv-benchmark-pt'' ''vgg16'' 5
             = Inl (ClientError ''ModelError'')" for env
    by (simp add: try_invoke_def randint_def raising_client_def)
  have h: "case try_invoke ?c example_env ''mme-cv-benchmark-pt'' ''vgg16'' 5 of
             Inl e \<Rightarrow> is_Exception e | Inr r \<Rightarrow> True"
    by (simp add: t)
  from send_fires_one_event [OF h, of "''cv''" "[]"] obtain m where
    "send ?c example_env ''mme-cv-benchmark-pt'' ''cv'' ''vgg16'' 5 [] = Inr ([] @ [m])"
    by blast
  moreover have "send ?c example_env ''mme-cv-benchmark-pt'' ''cv'' ''vgg16'' 5 [] =
     Inr [\<lparr>request_type = ''InvokeEndpoint'', name = ''vgg16'', start_time = 100,
           num_models = 5, response_length = 0, response = None, context_dict = [],
           exception = Some (ClientError ''ModelError''), response_time = Some 2000\<rparr>]"
    by (simp add: send_def t fire_def example_env_def)
  ultimately show ?thesis using h by simp
qed

section \<open>The payload global of the client (C10)\<close>

text \<open>
  C10: constructing a \<^verbatim>\<open>SageMakerClient\<close> while the module global
  \<^verbatim>\<open>"payload"\<close> is unset fails at construction: with \<^verbatim>\<open>KeyError\<close> once the boto3
  session exists, and with no client built in any case, so nothing is left to fail at send
  time. \<^verbatim>\<open>SageMakerUser.__init__\<close> sets the global from the payload file before it
  constructs the client, which then holds that payload.
\<close>

theorem client_requires_payload:
  "(globals ''payload'' = None \<longrightarrow>
      SageMakerClient_init (Inr s) globals = Inl (KeyError ''payload'') \<and>
      isl (SageMakerClient_init Session globals)) \<and>
   (read_file payload_path = Inr content \<and> s ''sagemaker-runtime'' = Inr c \<longrightarrow>
      SageMakerUser_init (Inr s) read_file payload_path globals =
        (globals(''payload'' \<mapsto> content),
         Inr \<lparr>session = s, payload = content, client = c, content_type = module_content_type\<rparr>))"
  by (cases Session) (simp_all add: SageMakerClient_init_def SageMakerUser_init_def)

theorem client_requires_payload_witness:
  "(Map.empty :: string \<rightharpoonup> string) ''payload'' = None \<and>
   SageMakerClient_init (Inr (session echo_client)) Map.empty = Inl (KeyError ''payload'') \<and>
   isl (SageMakerClient_init (Inr (session echo_client)) Map.empty) \<and>
   payload (projr (snd (SageMakerUser_init (Inr (session echo_client))
       (\<lambda>path. Inr ''payload-body'') ''payload.json'' Map.empty))) = ''payload-body''"
proof -
  have h1: "(Map.empty :: string \<rightharpoonup> string) ''payload'' = None" by simp
  have h2: "(\<lambda>path :: string. Inr ''payload-body'' :: py_exception + string) ''payload.json''
              = Inr ''payload-body'' \<and>
            session echo_client ''sagemaker-runtime'' = Inr (client echo_client)"
    by (simp add: echo_client_def)
  from client_requires_payload
    [of Map.empty "session echo_client" "Inr (session echo_client)"
        "\<lambda>path. Inr ''payload-body''" "''payload.json''" "''payload-body''" "client echo_client"]
    h1 h2
  show ?thesis by simp
qed

section \<open>The ramp-up rate bound (C8)\<close>

lemma after_tick_Continue:
  "after_tick c (Continue tc r) dt f =
     (if c < tc then c + (min (nat \<lceil>r * dt\<rceil>) (tc - c) - f) else tc)"
  by (simp add: after_tick_def reconcile_def)

lemma capped_start_le_target: "(c::nat) \<le> tc \<Longrightarrow> c + (min k (tc - c) - f) \<le> tc"
  by arith

lemma capped_start_le_rate: "min (k::nat) (tc - c) - f \<le> k"
  by arith

lemma after_tick_le_target: "c \<le> tc \<Longrightarrow> after_tick c (Continue tc r) dt f \<le> tc"
  unfolding after_tick_Continue using capped_start_le_target [of c tc "nat \<lceil>r * dt\<rceil>" f]
  by (simp del: nat_le_iff le_nat_iff)

lemma after_tick_le_rate: "c \<le> tc \<Longrightarrow> after_tick c (Continue tc r) dt f \<le> c + nat \<lceil>r * dt\<rceil>"
  unfolding after_tick_Continue using capped_start_le_rate [of "nat \<lceil>r * dt\<rceil>" tc c f]
  by (cases "c < tc") simp_all

lemma ramp_bound:
  "c \<le> tc \<Longrightarrow>
   ramp c (Continue tc r) dt fs \<le> min tc (c + length fs * nat \<lceil>r * dt\<rceil>)"
proof (induction fs arbitrary: c)
  case Nil
  then show ?case by simp
next
  case (Cons f fs)
  let ?c' = "after_tick c (Continue tc r) dt f"
  from Cons.prems have le: "?c' \<le> tc" by (rule after_tick_le_target)
  from Cons.prems have rate: "?c' \<le> c + nat \<lceil>r * dt\<rceil>" by (rule after_tick_le_rate)
  from Cons.IH [OF le]
  have "ramp ?c' (Continue tc r) dt fs \<le> min tc (?c' + length fs * nat \<lceil>r * dt\<rceil>)" .
  also from rate have "\<dots> \<le> min tc (c + length (f # fs) * nat \<lceil>r * dt\<rceil>)"
    by (simp add: min_le_iff_disj)
  finally show ?case by simp
qed

lemma ramp_no_failures:
  "c \<le> tc \<Longrightarrow>
   ramp c (Continue tc r) dt (replicate n 0) = min tc (c + n * nat \<lceil>r * dt\<rceil>)"
proof (induction n arbitrary: c)
  case 0
  then show ?case by simp
next
  case (Suc n)
  let ?c' = "after_tick c (Continue tc r) dt 0"
  from Suc.prems have le: "?c' \<le> tc" by (rule after_tick_le_target)
  have c': "?c' = min tc (c + nat \<lceil>r * dt\<rceil>)"
    using Suc.prems by (auto simp: after_tick_Continue)
  from Suc.IH [OF le]
  have "ramp c (Continue tc r) dt (replicate (Suc n) 0) = min tc (?c' + n * nat \<lceil>r * dt\<rceil>)"
    by simp
  also have "\<dots> = min tc (c + Suc n * nat \<lceil>r * dt\<rceil>)"
    unfolding c' by (simp add: min_def)
  finally show ?case .
qed

text \<open>
  C8: during ramp-up (\<open>current_active < target_concurrency\<close>) the controller starts at
  most \<open>ceil(spawn_rate * dt)\<close> workers in a tick and does not raise the active count above
  the target. With spawn rate 2 per second and \<open>dt\<close> of 1 second, from 0 active workers
  toward a target of 10, the active count after n ticks is at most \<open>min 10 (2 * n)\<close>
  whatever starts fail, and exactly that when none fails.
\<close>

theorem ramp_up_rate_bound:
  "(current_active < target_concurrency \<longrightarrow>
      (\<exists>k. reconcile current_active (Continue target_concurrency rate) dt = StartWorkers k \<and>
           k \<le> nat \<lceil>rate * dt\<rceil> \<and> current_active + k \<le> target_concurrency) \<and>
      after_tick current_active (Continue target_concurrency rate) dt failed \<le> target_concurrency) \<and>
   ramp 0 (Continue 10 2) 1 failures \<le> min 10 (2 * length failures) \<and>
   ramp 0 (Continue 10 2) 1 (replicate n 0) = min 10 (2 * n)"
proof -
  have "ramp 0 (Continue 10 2) 1 failures \<le> min 10 (0 + length failures * nat \<lceil>2 * 1 :: real\<rceil>)"
    by (rule ramp_bound) simp
  moreover have "ramp 0 (Continue 10 2) 1 (replicate n 0) = min 10 (0 + n * nat \<lceil>2 * 1 :: real\<rceil>)"
    by (rule ramp_no_failures) simp
  ultimately show ?thesis
    by (auto simp: reconcile_def after_tick_Continue mult.commute)
qed

theorem ramp_up_rate_bound_witness:
  "(0::nat) < 10 \<and> reconcile 0 (Continue 10 2) 1 = StartWorkers 2 \<and>
   after_tick 0 (Continue 10 2) 1 1 = 1 \<and>
   ramp 0 (Continue 10 2) 1 [0, 1, 0] = 5 \<and> ramp 0 (Continue 10 2) 1 [0, 1, 0] \<le> min 10 (2 * 3) \<and>
   ramp 0 (Continue 10 2) 1 (replicate 3 0) = 6 \<and>
   ramp 0 (Continue 10 2) 1 (replicate 7 0) = 10"
proof -
  have h: "(0::nat) < 10" by simp
  have r: "reconcile 0 (Continue 10 2) 1 = StartWorkers 2"
    by (simp add: reconcile_def)
  have a: "after_tick 0 (Continue 10 2) 1 1 = 1" by (simp add: after_tick_Continue)
  have v: "ramp 0 (Continue 10 2) 1 [0, 1, 0] = 5" by (simp add: after_tick_Continue)
  from ramp_up_rate_bound [of 0 10 2 1 1 "[0, 1, 0]" 3]
  have b: "ramp 0 (Continue 10 2) 1 [0, 1, 0] \<le> min 10 (2 * 3)"
    and e: "ramp 0 (Continue 10 2) 1 (replicate 3 0) = 6" by simp_all
  from ramp_up_rate_bound [of 0 10 2 1 1 "[]" 7]
  have e7: "ramp 0 (Continue 10 2) 1 (replicate 7 0) = 10" by simp
  from h r a v b e e7 show ?thesis by simp
qed

end
